theory Spec2Isabelle
  imports Main "HOL-Library.Word"
begin

unbundle bit_operations_syntax

section \<open>Bytes, buffers and outcomes\<close>

text \<open>
  \<^verbatim>\<open>main.go\<close> holds an earlier and a later revision of the decoder. The later one
  (from line 205 on: \<^verbatim>\<open>parseAPP1\<close>, \<^verbatim>\<open>parseTIFF\<close>, \<^verbatim>\<open>parseIFD\<close>,
  \<^verbatim>\<open>FindLinkedIFD\<close>, \<^verbatim>\<open>Length\<close> and \<^verbatim>\<open>parseIFDElement\<close>) is modelled here.
  It works on Go byte slices. A slice is modelled as the list of its
  bytes. Every slice the decoder slices again was made by \<^verbatim>\<open>make([]byte, n)\<close> or by an
  open-ended \<^verbatim>\<open>b[lo:]\<close>, so its capacity equals its length; the only slices with spare
  capacity (a 12-byte entry slot and its 4-byte raw field) are indexed inside their
  length only.

  A Go function of this file ends in one of three ways: it returns a value, it returns
  a non-nil \<^verbatim>\<open>error\<close>, or a slice expression is out of range and the runtime panics.
  Go's \<^verbatim>\<open>int\<close> is taken to be 64 bits wide, so the products of \<^verbatim>\<open>Length\<close>
  (below \<open>2 ^ 36\<close>) and the sums of offsets do not overflow and are modelled in
  \<^typ>\<open>int\<close> and \<^typ>\<open>nat\<close>; the \<^verbatim>\<open>uint16\<close> and \<^verbatim>\<open>uint32\<close> arithmetic
  of the source is modelled on words, where it wraps.
\<close>

type_synonym byte = "8 word"

datatype endian = BigEndian | LittleEndian

text \<open>One constructor for each \<^verbatim>\<open>fmt.Errorf\<close> of the source.\<close>

datatype error =
    ErrSOINotFound
  | ErrAPP1MarkerNotFound
  | ErrExifMarkerNotFound
  | ErrCouldNotRead nat
  | ErrShortRead nat nat
  | ErrInvalidEndian "byte list"
  | ErrInvalidTIFFVersion "byte list"
  | ErrElementLength nat
  | ErrIFDElement nat nat
  | ErrParse0thIFD error
  | ErrParseExifIFD error
  | ErrParseGPSIFD error
  | ErrParseInteroperabilityIFD error
  | ErrParse1stIFD error
  | ErrParseTIFF error
  | ErrParseAPP1 error
  | ErrParseJPEGHeader error

datatype 'a outcome = Returns 'a | Fails error | Panics

fun andThen :: "'a outcome \<Rightarrow> ('a \<Rightarrow> 'b outcome) \<Rightarrow> 'b outcome" where
  "andThen (Returns x) f = f x"
| "andThen (Fails e) f = Fails e"
| "andThen Panics f = Panics"

text \<open>\<^verbatim>\<open>fmt.Errorf("Could not parse ...: %s", err)\<close>: an error is wrapped, a panic
  goes through.\<close>

fun wrapErr :: "(error \<Rightarrow> error) \<Rightarrow> 'a outcome \<Rightarrow> 'a outcome" where
  "wrapErr w (Returns x) = Returns x"
| "wrapErr w (Fails e) = Fails (w e)"
| "wrapErr w Panics = Panics"

text \<open>The slice expressions \<^verbatim>\<open>b[lo:hi]\<close> and \<^verbatim>\<open>b[lo:]\<close>; Go panics unless
  \<open>lo \<le> hi \<le> cap b\<close>.\<close>

definition slice :: "byte list \<Rightarrow> nat \<Rightarrow> nat \<Rightarrow> byte list outcome" where
  "slice b lo hi = (if lo \<le> hi \<and> hi \<le> length b then Returns (take (hi - lo) (drop lo b)) else Panics)"

definition sliceFrom :: "byte list \<Rightarrow> nat \<Rightarrow> byte list outcome" where
  "sliceFrom b lo = (if lo \<le> length b then Returns (drop lo b) else Panics)"

text \<open>\<^verbatim>\<open>binary.ByteOrder.Uint16\<close> and \<^verbatim>\<open>Uint32\<close>: they index the last byte they
  need first, which panics on a shorter slice.\<close>

fun Uint16 :: "endian \<Rightarrow> byte list \<Rightarrow> 16 word outcome" where
  "Uint16 LittleEndian (b0 # b1 # bs) = Returns (ucast b0 OR push_bit 8 (ucast b1))"
| "Uint16 BigEndian (b0 # b1 # bs) = Returns (ucast b1 OR push_bit 8 (ucast b0))"
| "Uint16 endian bs = Panics"

fun Uint32 :: "endian \<Rightarrow> byte list \<Rightarrow> 32 word outcome" where
  "Uint32 LittleEndian (b0 # b1 # b2 # b3 # bs) =
     Returns (ucast b0 OR push_bit 8 (ucast b1) OR push_bit 16 (ucast b2) OR push_bit 24 (ucast b3))"
| "Uint32 BigEndian (b0 # b1 # b2 # b3 # bs) =
     Returns (ucast b3 OR push_bit 8 (ucast b2) OR push_bit 16 (ucast b1) OR push_bit 24 (ucast b0))"
| "Uint32 endian bs = Panics"

section \<open>Directory entries\<close>

record IFDElement =
  Tag :: "16 word"
  Type :: "16 word"
  Count :: "32 word"
  Value :: "byte list"
  rawValue :: "byte list"

text \<open>\<^verbatim>\<open>func (e *IFDElement) Length() int\<close>: the switch on the type code.\<close>

definition Length :: "IFDElement \<Rightarrow> int" where
  "Length e =
    (if Type e = 3 then int (unat (Count e)) * 2
     else if Type e = 4 then int (unat (Count e)) * 4
     else if Type e = 5 then int (unat (Count e)) * 8
     else if Type e = 9 then int (unat (Count e)) * 8
     else if Type e = 10 then int (unat (Count e)) * 16
     else int (unat (Count e)))"

text \<open>\<^verbatim>\<open>func (e *IFDElement) Uint32(endian)\<close> reads the raw field.\<close>

definition elemUint32 :: "IFDElement \<Rightarrow> endian \<Rightarrow> 32 word outcome" where
  "elemUint32 e endian = Uint32 endian (rawValue e)"

text \<open>The composite literal of \<^verbatim>\<open>parseIFDElement\<close>: tag, type, count and the raw
  field of a slot; \<^verbatim>\<open>Value\<close> is still nil.\<close>

definition entryFields :: "byte list \<Rightarrow> endian \<Rightarrow> IFDElement outcome" where
  "entryFields b endian =
    andThen (slice b 0 2) (\<lambda>tb. andThen (Uint16 endian tb) (\<lambda>tag.
    andThen (slice b 2 4) (\<lambda>yb. andThen (Uint16 endian yb) (\<lambda>ty.
    andThen (slice b 4 8) (\<lambda>cb. andThen (Uint32 endian cb) (\<lambda>cnt.
    andThen (slice b 8 12) (\<lambda>raw.
      Returns \<lparr>Tag = tag, Type = ty, Count = cnt, Value = [], rawValue = raw\<rparr>)))))))"

text \<open>\<^verbatim>\<open>parseIFDElement(b, ifd, endian)\<close>: \<open>b\<close> is the 12-byte slot, \<open>ifd\<close> the
  slice the directory was parsed from. \<^verbatim>\<open>uint32(e.Length())\<close> truncates to 32 bits
  and the sum with the offset wraps.\<close>

definition parseIFDElement :: "byte list \<Rightarrow> byte list \<Rightarrow> endian \<Rightarrow> IFDElement outcome" where
  "parseIFDElement b ifd endian =
    (if length b \<noteq> 12 then Fails (ErrElementLength (length b))
     else andThen (entryFields b endian) (\<lambda>e.
       if Length e > 4 then
         andThen (elemUint32 e endian) (\<lambda>offset.
         andThen (slice ifd (unat offset) (unat (offset + word_of_int (Length e)))) (\<lambda>v.
           Returns (e\<lparr>Value := v\<rparr>)))
       else Returns (e\<lparr>Value := rawValue e\<rparr>)))"

section \<open>Directories\<close>

record IFD =
  Elements :: "IFDElement list"
  rawValues :: "byte list"

text \<open>The loop of \<^verbatim>\<open>parseIFD\<close> over \<open>i = 0, ..., elementCount - 1\<close>: the first
  argument counts the entries still to parse, \<open>i\<close> is the index of the next one.\<close>

fun parseElements :: "nat \<Rightarrow> nat \<Rightarrow> byte list \<Rightarrow> endian \<Rightarrow> IFDElement list outcome" where
  "parseElements 0 i b endian = Returns []"
| "parseElements (Suc k) i b endian =
    andThen (slice b (2 + i * 12) (2 + i * 12 + 12)) (\<lambda>slot.
      case parseIFDElement slot b endian of
        Fails err \<Rightarrow> Fails (ErrIFDElement i (2 + i * 12))
      | Panics \<Rightarrow> Panics
      | Returns e \<Rightarrow> andThen (parseElements k (Suc i) b endian) (\<lambda>es. Returns (e # es)))"

text \<open>\<^verbatim>\<open>parseIFD(b, endian)\<close>. The positions \<^verbatim>\<open>2 + elementCount*12\<close> and
  \<^verbatim>\<open>2 + elementCount*12 + 4\<close> are computed on \<^verbatim>\<open>uint16\<close>.\<close>

definition trailerPos :: "16 word \<Rightarrow> 16 word" where
  "trailerPos elementCount = 2 + elementCount * 12"

definition valuesPos :: "16 word \<Rightarrow> 16 word" where
  "valuesPos elementCount = 2 + elementCount * 12 + 4"

definition parseIFD :: "byte list \<Rightarrow> endian \<Rightarrow> IFD outcome" where
  "parseIFD b endian =
    andThen (slice b 0 2) (\<lambda>cb. andThen (Uint16 endian cb) (\<lambda>elementCount.
    let valuesOffset = unat (valuesPos elementCount) in
    andThen (slice b (unat (trailerPos elementCount)) (unat (valuesPos elementCount))) (\<lambda>tb.
    andThen (Uint32 endian tb) (\<lambda>vl.
    let valuesLength = unat vl in
    andThen (slice b valuesOffset (valuesOffset + valuesLength)) (\<lambda>raw.
    andThen (parseElements (unat elementCount) 0 b endian) (\<lambda>es.
      Returns \<lparr>Elements = es, rawValues = raw\<rparr>))))))"

text \<open>\<^verbatim>\<open>func (d *IFD) FindLinkedIFD(tag, b, endian)\<close>: the range loop over the
  elements; \<open>None\<close> is the nil directory returned with a nil error.\<close>

fun findLinked :: "IFDElement list \<Rightarrow> 16 word \<Rightarrow> byte list \<Rightarrow> endian \<Rightarrow> IFD option outcome" where
  "findLinked [] tag b endian = Returns None"
| "findLinked (e # es) tag b endian =
    (if Tag e = tag then
       andThen (elemUint32 e endian) (\<lambda>offset.
       andThen (sliceFrom b (unat offset)) (\<lambda>s.
       andThen (parseIFD s endian) (\<lambda>d. Returns (Some d))))
     else findLinked es tag b endian)"

definition FindLinkedIFD :: "IFD \<Rightarrow> 16 word \<Rightarrow> byte list \<Rightarrow> endian \<Rightarrow> IFD option outcome" where
  "FindLinkedIFD d tag b endian = findLinked (Elements d) tag b endian"

section \<open>The TIFF payload and the APP1 segment\<close>

record APP1 =
  Endian :: endian
  rawPreIFD :: "byte list"
  IFD0 :: "IFD option"
  ExifIFD :: "IFD option"
  GPSIFD :: "IFD option"
  InteroperabilityIFD :: "IFD option"
  IFD1 :: "IFD option"

text \<open>The part of \<^verbatim>\<open>parseTIFF\<close> after the byte order is known.\<close>

definition parseTIFFBody :: "byte list \<Rightarrow> endian \<Rightarrow> APP1 outcome" where
  "parseTIFFBody b endian =
    andThen (slice b 2 4) (\<lambda>vb. andThen (Uint16 endian vb) (\<lambda>version.
    if version \<noteq> 0x002a then Fails (ErrInvalidTIFFVersion vb)
    else
      andThen (slice b 4 8) (\<lambda>ob. andThen (Uint32 endian ob) (\<lambda>ifdOffset.
      andThen (slice b 8 (unat ifdOffset)) (\<lambda>pre.
      andThen (sliceFrom b (unat ifdOffset)) (\<lambda>s0.
      andThen (wrapErr ErrParse0thIFD (parseIFD s0 endian)) (\<lambda>ifd0.
      andThen (wrapErr ErrParseExifIFD (FindLinkedIFD ifd0 0x8769 b endian)) (\<lambda>exif.
      andThen (wrapErr ErrParseGPSIFD (FindLinkedIFD ifd0 0x8825 b endian)) (\<lambda>gps.
      andThen (wrapErr ErrParseInteroperabilityIFD (FindLinkedIFD ifd0 0xA005 b endian)) (\<lambda>interop.
      andThen (sliceFrom b (unat ifdOffset + length (rawValues ifd0))) (\<lambda>s1.
      andThen (wrapErr ErrParse1stIFD (parseIFD s1 endian)) (\<lambda>ifd1.
        Returns \<lparr>Endian = endian, rawPreIFD = pre, IFD0 = Some ifd0, ExifIFD = exif,
                 GPSIFD = gps, InteroperabilityIFD = interop, IFD1 = Some ifd1\<rparr>))))))))))))"

definition parseTIFF :: "byte list \<Rightarrow> APP1 outcome" where
  "parseTIFF b =
    andThen (slice b 0 2) (\<lambda>mark.
      if mark = [0x4d, 0x4d] then parseTIFFBody b BigEndian
      else if mark = [0x49, 0x49] then parseTIFFBody b LittleEndian
      else Fails (ErrInvalidEndian mark))"

text \<open>
  The reader is the rest of an opened file: \<^verbatim>\<open>Read\<close> fills the whole buffer when
  that many bytes are left, reports end of file when none is left and a short count
  otherwise; a read of zero bytes succeeds. \<^verbatim>\<open>readBytes\<close> returns its result and
  the reader after the read.
\<close>

definition readBytes :: "byte list \<Rightarrow> nat \<Rightarrow> byte list outcome \<times> byte list" where
  "readBytes r n =
    (if n = 0 then (Returns [], r)
     else if r = [] then (Fails (ErrCouldNotRead n), r)
     else if length r < n then (Fails (ErrShortRead n (length r)), [])
     else (Returns (take n r), drop n r))"

definition app1marker :: "byte list" where
  "app1marker = [0xff, 0xe1]"

definition exifMarker :: "byte list" where
  "exifMarker = [0x45, 0x78, 0x69, 0x66, 0x00, 0x00]"

definition soiMarker :: "byte list" where
  "soiMarker = [0xff, 0xd8]"

text \<open>\<^verbatim>\<open>parseAPP1\<close> up to its last \<^verbatim>\<open>readBytes\<close>: the bytes it hands to
  \<^verbatim>\<open>parseTIFF\<close>. \<^verbatim>\<open>tiffLength := app1Length - 10\<close> is \<^verbatim>\<open>uint16\<close>.\<close>

definition readTIFFPayload :: "byte list \<Rightarrow> byte list outcome" where
  "readTIFFPayload r =
    (case readBytes r 2 of (m, r1) \<Rightarrow>
     andThen m (\<lambda>b. if b \<noteq> app1marker then Fails ErrAPP1MarkerNotFound else
     (case readBytes r1 2 of (l, r2) \<Rightarrow>
      andThen l (\<lambda>b. andThen (Uint16 BigEndian b) (\<lambda>app1Length.
      let tiffLength = app1Length - 10 in
      (case readBytes r2 6 of (x, r3) \<Rightarrow>
       andThen x (\<lambda>b. if b \<noteq> exifMarker then Fails ErrExifMarkerNotFound else
       fst (readBytes r3 (unat tiffLength)))))))))"

definition parseAPP1 :: "byte list \<Rightarrow> APP1 outcome" where
  "parseAPP1 r = andThen (readTIFFPayload r) (\<lambda>b. wrapErr ErrParseTIFF (parseTIFF b))"

definition parseJPEGHeader :: "byte list \<Rightarrow> APP1 outcome" where
  "parseJPEGHeader r =
    (case readBytes r 2 of (m, r1) \<Rightarrow>
     andThen m (\<lambda>b. if b \<noteq> soiMarker then Fails ErrSOINotFound
                    else wrapErr ErrParseAPP1 (parseAPP1 r1)))"

section \<open>Sample inputs\<close>

text \<open>A little-endian TIFF payload whose first directory, at offset 8, has no entry
  and a zero trailer.\<close>

definition minimalTIFF :: "byte list" where
  "minimalTIFF = [0x49, 0x49, 0x2A, 0x00, 0x08, 0, 0, 0,  0, 0,  0, 0, 0, 0]"

text \<open>The same with one entry: tag \<open>0x010F\<close>, type BYTE, count 1.\<close>

definition oneEntryTIFF :: "byte list" where
  "oneEntryTIFF = [0x49, 0x49, 0x2A, 0x00, 0x08, 0, 0, 0,  1, 0,
     0x0f, 0x01, 1, 0, 1, 0, 0, 0, 0xAA, 0xBB, 0xCC, 0xDD,  0, 0, 0, 0]"

text \<open>An empty first directory whose trailer holds 6, followed by six zero bytes.\<close>

definition gapTIFF :: "byte list" where
  "gapTIFF = [0x49, 0x49, 0x2A, 0x00, 0x08, 0, 0, 0,  0, 0,  6, 0, 0, 0,
     0, 0,  0, 0, 0, 0]"

text \<open>Two directories laid out as the format has them: the primary one, at offset 8,
  has one entry (tag \<open>0x010F\<close>, type BYTE, count 1) and the next-directory field 26;
  the second one, at offset 26, is empty.\<close>

definition twoDirTIFF :: "byte list" where
  "twoDirTIFF = [0x49, 0x49, 0x2A, 0x00, 0x08, 0, 0, 0,  1, 0,
     0x0f, 0x01, 1, 0, 1, 0, 0, 0, 0xAA, 0xBB, 0xCC, 0xDD,  26, 0, 0, 0,
     0, 0,  0, 0, 0, 0]"

text \<open>Entry slots (little endian): a BYTE of count 1, a LONG of count 2 stored at
  offset 2, a LONG of count 2 stored at offset 100, an entry of the unknown type 13,
  and an SRATIONAL whose count is \<open>2 ^ 28\<close>.\<close>

definition byteSlot :: "byte list" where
  "byteSlot = [0x0f, 0x01, 1, 0, 1, 0, 0, 0, 0xAA, 0xBB, 0xCC, 0xDD]"

definition longSlot :: "byte list" where
  "longSlot = [0x0f, 0x01, 4, 0, 2, 0, 0, 0, 2, 0, 0, 0]"

definition farSlot :: "byte list" where
  "farSlot = [0x0f, 0x01, 4, 0, 2, 0, 0, 0, 100, 0, 0, 0]"

definition unknownSlot :: "byte list" where
  "unknownSlot = [0x0f, 0x01, 13, 0, 3, 0, 0, 0, 1, 2, 3, 4]"

definition hugeSlot :: "byte list" where
  "hugeSlot = [0x0f, 0x01, 10, 0, 0, 0, 0, 0x10, 1, 0, 0, 0]"

text \<open>A JPEG stream: SOI, an APP1 segment of declared length \<open>0x16 = 2 + 6 + 14\<close>,
  the Exif identifier and the 14 bytes of \<^const>\<open>minimalTIFF\<close>.\<close>

definition minimalJPEG :: "byte list" where
  "minimalJPEG = [0xff, 0xd8, 0xff, 0xe1, 0x00, 0x16, 0x45, 0x78, 0x69, 0x66, 0, 0] @ minimalTIFF"

section \<open>Outcomes of the building blocks\<close>

lemmas decoder_defs = slice_def sliceFrom_def parseTIFF_def parseTIFFBody_def parseIFD_def
  trailerPos_def valuesPos_def FindLinkedIFD_def parseIFDElement_def entryFields_def
  elemUint32_def Length_def readBytes_def readTIFFPayload_def parseAPP1_def
  parseJPEGHeader_def app1marker_def exifMarker_def soiMarker_def Let_def

lemmas sample_defs = minimalTIFF_def oneEntryTIFF_def gapTIFF_def byteSlot_def longSlot_def
  farSlot_def unknownSlot_def hugeSlot_def minimalJPEG_def twoDirTIFF_def

lemma andThen_Returns_iff:
  "andThen m f = Returns y \<longleftrightarrow> (\<exists>x. m = Returns x \<and> f x = Returns y)"
  by (cases m) auto

lemma andThen_Fails_iff:
  "andThen m f = Fails e \<longleftrightarrow> m = Fails e \<or> (\<exists>x. m = Returns x \<and> f x = Fails e)"
  by (cases m) auto

lemma wrapErr_Returns_iff: "wrapErr w m = Returns y \<longleftrightarrow> m = Returns y"
  by (cases m) auto

lemma wrapErr_Fails_iff: "wrapErr w m = Fails e \<longleftrightarrow> (\<exists>e'. m = Fails e' \<and> e = w e')"
  by (cases m) auto

lemma slice_not_Fails: "slice b lo hi \<noteq> Fails e"
  by (simp add: slice_def)

lemma sliceFrom_not_Fails: "sliceFrom b lo \<noteq> Fails e"
  by (simp add: sliceFrom_def)

lemma slice_Returns_iff:
  "slice b lo hi = Returns s \<longleftrightarrow> lo \<le> hi \<and> hi \<le> length b \<and> s = take (hi - lo) (drop lo b)"
  by (auto simp: slice_def)

lemma slice_length: "slice b lo hi = Returns s \<Longrightarrow> length s = hi - lo"
  by (auto simp: slice_def split: if_splits)

lemma Uint16_not_Fails: "Uint16 endian bs \<noteq> Fails e"
  by (induction endian bs rule: Uint16.induct) simp_all

lemma Uint32_not_Fails: "Uint32 endian bs \<noteq> Fails e"
  by (induction endian bs rule: Uint32.induct) simp_all

lemma Uint16_Panics_iff: "Uint16 endian bs = Panics \<longleftrightarrow> length bs < 2"
  by (induction endian bs rule: Uint16.induct) simp_all

lemma Uint32_Panics_iff: "Uint32 endian bs = Panics \<longleftrightarrow> length bs < 4"
  by (induction endian bs rule: Uint32.induct) simp_all

lemma Uint16_total: "2 \<le> length bs \<Longrightarrow> \<exists>w. Uint16 endian bs = Returns w"
  using Uint16_Panics_iff [of endian bs] Uint16_not_Fails [of endian bs]
  by (cases "Uint16 endian bs") auto

lemma Uint32_total: "4 \<le> length bs \<Longrightarrow> \<exists>w. Uint32 endian bs = Returns w"
  using Uint32_Panics_iff [of endian bs] Uint32_not_Fails [of endian bs]
  by (cases "Uint32 endian bs") auto

lemma Uint32_take4: "Uint32 endian (take 4 bs) = Uint32 endian bs"
proof (cases "length bs < 4")
  case True
  then show ?thesis by simp
next
  case False
  then obtain b0 b1 b2 b3 rest where "bs = b0 # b1 # b2 # b3 # rest"
    by (cases bs; simp; cases "tl bs"; simp; cases "tl (tl bs)"; simp; cases "tl (tl (tl bs))"; simp)
  then show ?thesis by (cases endian) simp_all
qed

section \<open>Entries\<close>

lemma entryFields_slot:
  assumes "length b = 12"
  shows "\<exists>tag ty cnt. entryFields b endian =
      Returns \<lparr>Tag = tag, Type = ty, Count = cnt, Value = [], rawValue = drop 8 b\<rparr>"
proof -
  obtain tag where t: "Uint16 endian (take 2 b) = Returns tag"
    using Uint16_total [of "take 2 b" endian] assms by auto
  obtain ty where y: "Uint16 endian (take 2 (drop 2 b)) = Returns ty"
    using Uint16_total [of "take 2 (drop 2 b)" endian] assms by auto
  obtain cnt where c: "Uint32 endian (take 4 (drop 4 b)) = Returns cnt"
    using Uint32_total [of "take 4 (drop 4 b)" endian] assms by auto
  show ?thesis
    using assms t y c by (simp add: entryFields_def slice_def)
qed

lemma parseIFDElement_not_Fails:
  assumes "length b = 12"
  shows "parseIFDElement b ifd endian \<noteq> Fails err"
proof -
  obtain tag ty cnt where e: "entryFields b endian =
      Returns \<lparr>Tag = tag, Type = ty, Count = cnt, Value = [], rawValue = drop 8 b\<rparr>"
    using entryFields_slot [OF assms] by blast
  show ?thesis
    using assms e
    by (simp add: parseIFDElement_def elemUint32_def andThen_Fails_iff
        Uint32_not_Fails slice_not_Fails)
qed

lemma unat_add_len:
  fixes off :: "32 word"
  assumes "0 \<le> L" "L < 2 ^ 32"
  shows "unat (off + word_of_int L) = (unat off + nat L) mod 2 ^ 32"
proof -
  have "unat (word_of_int L :: 32 word) = nat L"
    using assms by (simp add: unat_eq_nat_uint uint_word_of_int)
  then show ?thesis by (simp add: unat_word_ariths)
qed

lemma parseIFDElement_indirect:
  assumes len: "length slot = 12"
    and fields: "entryFields slot endian = Returns e"
    and big: "4 < Length e"
    and fits32: "Length e < 2 ^ 32"
    and off: "elemUint32 e endian = Returns off"
  shows "parseIFDElement slot ifd endian =
      (if unat off + nat (Length e) < 2 ^ 32 \<and> unat off + nat (Length e) \<le> length ifd
       then Returns (e\<lparr>Value := take (nat (Length e)) (drop (unat off) ifd)\<rparr>)
       else Panics)"
proof -
  let ?L = "nat (Length e)"
  have hi: "unat (off + word_of_int (Length e)) = (unat off + ?L) mod 2 ^ 32"
    using big fits32 by (intro unat_add_len) simp_all
  have step: "parseIFDElement slot ifd endian =
      andThen (slice ifd (unat off) ((unat off + ?L) mod 2 ^ 32))
        (\<lambda>v. Returns (e\<lparr>Value := v\<rparr>))"
    using len fields big off by (simp add: parseIFDElement_def hi)
  have Lb: "?L < 2 ^ 32" using fits32 big by (simp add: nat_less_iff)
  have ob: "unat off < 2 ^ 32" using unsigned_less [of off, where ?'a = nat] by simp
  show ?thesis
  proof (cases "unat off + ?L < 2 ^ 32")
    case True
    then have "(unat off + ?L) mod 2 ^ 32 = unat off + ?L" by simp
    then show ?thesis using True step by (simp add: slice_def)
  next
    case False
    then have "(unat off + ?L) mod 2 ^ 32 = unat off + ?L - 2 ^ 32"
      using Lb ob by (simp add: mod_if)
    moreover have "unat off + ?L - 2 ^ 32 < unat off" using Lb False by linarith
    ultimately show ?thesis using False step by (simp add: slice_def)
  qed
qed

lemma parseIFDElement_inline:
  assumes len: "length slot = 12"
    and fields: "entryFields slot endian = Returns e"
    and small: "Length e \<le> 4"
  shows "parseIFDElement slot ifd endian = Returns (e\<lparr>Value := drop 8 slot\<rparr>)"
proof -
  from entryFields_slot [OF len, of endian] fields have "rawValue e = drop 8 slot"
    by auto
  then show ?thesis using len fields small by (simp add: parseIFDElement_def)
qed

section \<open>Directories\<close>

lemma parseElements_not_Fails: "parseElements k i b endian \<noteq> Fails err"
proof (induction k arbitrary: i err)
  case 0
  show ?case by simp
next
  case (Suc k)
  show ?case
  proof (cases "slice b (2 + i * 12) (2 + i * 12 + 12)")
    case (Returns slot)
    then have "length slot = 12" using slice_length by fastforce
    then have nf: "parseIFDElement slot b endian \<noteq> Fails e" for e
      by (rule parseIFDElement_not_Fails)
    show ?thesis
    proof (cases "parseIFDElement slot b endian")
      case (Returns e)
      then show ?thesis
        using \<open>slice b (2 + i * 12) (2 + i * 12 + 12) = Returns slot\<close> Suc.IH
        by (simp add: andThen_Fails_iff)
    next
      case (Fails e)
      then show ?thesis using nf by simp
    next
      case Panics
      then show ?thesis
        using \<open>slice b (2 + i * 12) (2 + i * 12 + 12) = Returns slot\<close> by simp
    qed
  next
    case (Fails e)
    then show ?thesis by (simp add: slice_not_Fails)
  next
    case Panics
    then show ?thesis by simp
  qed
qed

lemma parseElements_Returns:
  "parseElements k i b endian = Returns es \<Longrightarrow>
     length es = k \<and> (0 < k \<longrightarrow> 2 + 12 * (i + k) \<le> length b)"
proof (induction k arbitrary: i es)
  case 0
  then show ?case by auto
next
  case (Suc k)
  from Suc.prems obtain slot where
    sl: "slice b (2 + i * 12) (2 + i * 12 + 12) = Returns slot"
    and after: "(case parseIFDElement slot b endian of
        Fails err \<Rightarrow> Fails (ErrIFDElement i (2 + i * 12))
      | Panics \<Rightarrow> Panics
      | Returns e \<Rightarrow> andThen (parseElements k (Suc i) b endian) (\<lambda>es. Returns (e # es)))
      = Returns es"
    by (cases "slice b (2 + i * 12) (2 + i * 12 + 12)") simp_all
  from after obtain e where
    "andThen (parseElements k (Suc i) b endian) (\<lambda>es. Returns (e # es)) = Returns es"
    by (cases "parseIFDElement slot b endian") simp_all
  then obtain es' where
    rest: "parseElements k (Suc i) b endian = Returns es'" and es: "es = e # es'"
    by (cases "parseElements k (Suc i) b endian") auto
  from sl have fit: "2 + i * 12 + 12 \<le> length b" by (simp add: slice_Returns_iff)
  from Suc.IH [OF rest] have ih: "length es' = k" "0 < k \<longrightarrow> 2 + 12 * (Suc i + k) \<le> length b"
    by simp_all
  show ?case
  proof (cases k)
    case 0
    then show ?thesis using ih es fit by simp
  next
    case (Suc j)
    then show ?thesis using ih es by simp
  qed
qed

lemma trailerPos_unat: "unat (trailerPos c) = (2 + 12 * unat c) mod 65536"
  by (simp add: trailerPos_def unat_word_ariths mult.commute mod_Suc_Suc_eq)

lemma valuesPos_unat: "unat (valuesPos c) = (2 + 12 * unat c + 4) mod 65536"
  by (simp add: valuesPos_def unat_word_ariths mult.commute mod_simps mod_Suc_Suc_eq)

lemma valuesPos_after_trailer:
  assumes "unat (trailerPos c) \<le> unat (valuesPos c)"
  shows "unat (valuesPos c) = unat (trailerPos c) + 4"
proof -
  have v: "unat (valuesPos c) = (unat (trailerPos c) + 4) mod 65536"
    by (simp add: valuesPos_unat trailerPos_unat mod_simps)
  have lt: "unat (trailerPos c) < 65536"
    by (simp add: trailerPos_unat)
  show ?thesis
  proof (cases "unat (trailerPos c) + 4 < 65536")
    case True
    then show ?thesis using v by simp
  next
    case False
    then have "(unat (trailerPos c) + 4) mod 65536 = unat (trailerPos c) + 4 - 65536"
      using lt by (simp add: mod_if)
    then show ?thesis using v assms lt False by linarith
  qed
qed

lemma parseIFD_not_Fails: "parseIFD b endian \<noteq> Fails err"
  by (simp add: parseIFD_def Let_def andThen_Fails_iff slice_not_Fails Uint16_not_Fails
      Uint32_not_Fails parseElements_not_Fails)

lemma parseIFD_Returns:
  assumes "parseIFD b endian = Returns d"
  shows "\<exists>c vl. Uint16 endian (take 2 b) = Returns c
      \<and> unat (valuesPos c) = unat (trailerPos c) + 4
      \<and> Uint32 endian (take 4 (drop (unat (trailerPos c)) b)) = Returns vl
      \<and> unat (valuesPos c) + unat vl \<le> length b
      \<and> rawValues d = take (unat vl) (drop (unat (valuesPos c)) b)
      \<and> length (rawValues d) = unat vl
      \<and> length (Elements d) = unat c
      \<and> (c \<noteq> 0 \<longrightarrow> 2 + 12 * unat c \<le> length b)"
proof -
  from assms obtain c vl raw es where
    c: "Uint16 endian (take 2 b) = Returns c"
    and tb: "unat (trailerPos c) \<le> unat (valuesPos c)" "unat (valuesPos c) \<le> length b"
    and vl: "Uint32 endian (take (unat (valuesPos c) - unat (trailerPos c))
               (drop (unat (trailerPos c)) b)) = Returns vl"
    and raw: "unat (valuesPos c) + unat vl \<le> length b"
       "raw = take (unat vl) (drop (unat (valuesPos c)) b)"
    and es: "parseElements (unat c) 0 b endian = Returns es"
    and d: "d = \<lparr>Elements = es, rawValues = raw\<rparr>"
    by (auto simp: parseIFD_def Let_def andThen_Returns_iff slice_Returns_iff)
  have vp: "unat (valuesPos c) = unat (trailerPos c) + 4"
    using tb(1) by (rule valuesPos_after_trailer)
  from es have el: "length es = unat c" "0 < unat c \<longrightarrow> 2 + 12 * unat c \<le> length b"
    using parseElements_Returns [of "unat c" 0 b endian es] by simp_all
  have "c \<noteq> 0 \<Longrightarrow> 0 < unat c" by (simp add: unat_gt_0)
  then show ?thesis
    using c vp vl raw el d by (auto simp: Uint32_take4 min_def)
qed

lemma parseIFD_short_Panics: "length b < 2 \<Longrightarrow> parseIFD b endian = Panics"
  by (simp add: parseIFD_def slice_def)

lemma parseIFD_fits:
  assumes r: "parseIFD b endian = Returns d" and small: "length b < 65536"
  shows "2 + 12 * length (Elements d) + 4 + length (rawValues d) \<le> length b"
proof -
  from parseIFD_Returns [OF r] obtain c vl where all:
    "Uint16 endian (take 2 b) = Returns c
      \<and> unat (valuesPos c) = unat (trailerPos c) + 4
      \<and> Uint32 endian (take 4 (drop (unat (trailerPos c)) b)) = Returns vl
      \<and> unat (valuesPos c) + unat vl \<le> length b
      \<and> rawValues d = take (unat vl) (drop (unat (valuesPos c)) b)
      \<and> length (rawValues d) = unat vl
      \<and> length (Elements d) = unat c
      \<and> (c \<noteq> 0 \<longrightarrow> 2 + 12 * unat c \<le> length b)"
    by (elim exE)
  then have vp: "unat (valuesPos c) = unat (trailerPos c) + 4"
    and raw: "unat (valuesPos c) + unat vl \<le> length b"
    and ln: "length (rawValues d) = unat vl" "length (Elements d) = unat c"
    and ent: "c \<noteq> 0 \<longrightarrow> 2 + 12 * unat c \<le> length b"
    by blast+
  have "unat (trailerPos c) = 2 + 12 * unat c"
  proof (cases "c = 0")
    case True
    then show ?thesis by (simp add: trailerPos_def)
  next
    case False
    then have "2 + 12 * unat c < 65536" using ent small by linarith
    then show ?thesis by (simp add: trailerPos_unat)
  qed
  then show ?thesis using vp raw ln by simp
qed

lemma parseIFD_unfit_Panics:
  assumes c: "Uint16 endian (take 2 b) = Returns c"
    and small: "length b < 65536"
    and unfit: "length b < 2 + 12 * unat c + 4"
  shows "parseIFD b endian = Panics"
proof (cases "parseIFD b endian")
  case (Returns d)
  from parseIFD_Returns [OF Returns] c have "length (Elements d) = unat c" by auto
  then show ?thesis using parseIFD_fits [OF Returns small] unfit by simp
next
  case (Fails e)
  then show ?thesis using parseIFD_not_Fails by blast
next
  case Panics
  then show ?thesis .
qed

lemma findLinked_not_Fails: "findLinked es tag b endian \<noteq> Fails err"
  by (induction es)
    (simp_all add: andThen_Fails_iff elemUint32_def Uint32_not_Fails sliceFrom_not_Fails
      parseIFD_not_Fails)

lemma FindLinkedIFD_not_Fails: "FindLinkedIFD d tag b endian \<noteq> Fails err"
  by (simp add: FindLinkedIFD_def findLinked_not_Fails)

lemma findLinked_first:
  assumes "\<forall>x\<in>set pre. Tag x \<noteq> tag" "Tag e = tag"
  shows "findLinked (pre @ e # post) tag b endian =
     andThen (elemUint32 e endian) (\<lambda>offset.
     andThen (sliceFrom b (unat offset)) (\<lambda>s.
     andThen (parseIFD s endian) (\<lambda>d. Returns (Some d))))"
  using assms by (induction pre) simp_all

lemma findLinked_absent:
  "\<forall>x\<in>set es. Tag x \<noteq> tag \<Longrightarrow> findLinked es tag b endian = Returns None"
  by (induction es) simp_all

section \<open>The TIFF payload\<close>

lemma parseTIFFBody_Fails:
  "parseTIFFBody b endian = Fails err \<Longrightarrow> err = ErrInvalidTIFFVersion (take 2 (drop 2 b))"
  by (auto simp: parseTIFFBody_def andThen_Fails_iff slice_not_Fails Uint16_not_Fails
      Uint32_not_Fails sliceFrom_not_Fails wrapErr_Fails_iff parseIFD_not_Fails
      FindLinkedIFD_not_Fails slice_Returns_iff split: if_splits)

lemma parseTIFF_Fails:
  "parseTIFF b = Fails err \<Longrightarrow>
     err = ErrInvalidEndian (take 2 b) \<or> err = ErrInvalidTIFFVersion (take 2 (drop 2 b))"
  by (auto simp: parseTIFF_def andThen_Fails_iff slice_not_Fails slice_Returns_iff
      dest: parseTIFFBody_Fails split: if_splits)

lemma parseTIFFBody_Returns:
  assumes "parseTIFFBody b endian = Returns doc"
  shows "\<exists>off ifd0 ifd1. Uint32 endian (take 4 (drop 4 b)) = Returns off
     \<and> 8 \<le> unat off \<and> unat off \<le> length b
     \<and> parseIFD (drop (unat off) b) endian = Returns ifd0
     \<and> FindLinkedIFD ifd0 0x8769 b endian = Returns (ExifIFD doc)
     \<and> FindLinkedIFD ifd0 0x8825 b endian = Returns (GPSIFD doc)
     \<and> FindLinkedIFD ifd0 0xA005 b endian = Returns (InteroperabilityIFD doc)
     \<and> parseIFD (drop (unat off + length (rawValues ifd0)) b) endian = Returns ifd1
     \<and> Endian doc = endian \<and> IFD0 doc = Some ifd0 \<and> IFD1 doc = Some ifd1"
  using assms
  by (auto simp: parseTIFFBody_def andThen_Returns_iff wrapErr_Returns_iff slice_Returns_iff
      sliceFrom_def split: if_splits)

lemma parseTIFF_Returns:
  "parseTIFF b = Returns doc \<Longrightarrow> \<exists>endian. parseTIFFBody b endian = Returns doc"
  by (auto simp: parseTIFF_def andThen_Returns_iff split: if_splits)

lemma parseTIFFBody_preIFD_Panics:
  assumes "8 \<le> length b" "Uint16 endian (take 2 (drop 2 b)) = Returns 0x2a"
    "Uint32 endian (take 4 (drop 4 b)) = Returns off"
    "unat off < 8 \<or> length b < unat off"
  shows "parseTIFFBody b endian = Panics"
  using assms by (auto simp: parseTIFFBody_def slice_def)

section \<open>The claims\<close>

text \<open>
  C1, as the code has it. A malformed buffer is not always answered with an error: the
  only errors \<^const>\<open>parseTIFF\<close> returns are the two of the header (byte-order mark,
  version). An out-of-range slice is caught by the runtime and panics. The decoder
  panics when the header is valid, the buffer has at least 8 bytes and the pre-IFD
  region \<open>p[8:ifdOffset]\<close> is out of range; a directory panics when its entry array and
  trailer, \<open>2 + 12 \<times> entryCount + 4\<close> bytes, do not fit in the bytes that are left
  (buffers shorter than \<open>65536\<close> bytes, which is all \<^const>\<open>parseAPP1\<close> can supply);
  and an entry whose length is above 4 and below \<open>2 ^ 32\<close> panics when offset + length
  exceeds the length of the slice its value is read from.
\<close>

theorem bounds_enforced_by_panic:
  "(parseTIFF b = Fails err \<longrightarrow>
      err = ErrInvalidEndian (take 2 b) \<or> err = ErrInvalidTIFFVersion (take 2 (drop 2 b)))
   \<and> ((take 2 p = [0x4d, 0x4d] \<and> endian = BigEndian
          \<or> take 2 p = [0x49, 0x49] \<and> endian = LittleEndian)
        \<and> 8 \<le> length p \<and> Uint16 endian (take 2 (drop 2 p)) = Returns 0x2a
        \<and> Uint32 endian (take 4 (drop 4 p)) = Returns off
        \<and> (unat off < 8 \<or> length p < unat off) \<longrightarrow> parseTIFF p = Panics)
   \<and> (Uint16 endian (take 2 d) = Returns c \<and> length d < 65536
        \<and> length d < 2 + 12 * unat c + 4 \<longrightarrow> parseIFD d endian = Panics)
   \<and> (length slot = 12 \<and> entryFields slot endian = Returns e \<and> 4 < Length e
        \<and> Length e < 2 ^ 32 \<and> elemUint32 e endian = Returns voff
        \<and> length ifd < unat voff + nat (Length e) \<longrightarrow> parseIFDElement slot ifd endian = Panics)"
proof -
  have hdr: "parseTIFF b = Fails err \<longrightarrow>
      err = ErrInvalidEndian (take 2 b) \<or> err = ErrInvalidTIFFVersion (take 2 (drop 2 b))"
    using parseTIFF_Fails by blast
  have pre: "(take 2 p = [0x4d, 0x4d] \<and> endian = BigEndian
          \<or> take 2 p = [0x49, 0x49] \<and> endian = LittleEndian)
        \<and> 8 \<le> length p \<and> Uint16 endian (take 2 (drop 2 p)) = Returns 0x2a
        \<and> Uint32 endian (take 4 (drop 4 p)) = Returns off
        \<and> (unat off < 8 \<or> length p < unat off) \<longrightarrow> parseTIFF p = Panics"
  proof (intro impI, elim conjE)
    assume m: "take 2 p = [0x4d, 0x4d] \<and> endian = BigEndian
        \<or> take 2 p = [0x49, 0x49] \<and> endian = LittleEndian"
      and l: "8 \<le> length p" and v: "Uint16 endian (take 2 (drop 2 p)) = Returns 0x2a"
      and o: "Uint32 endian (take 4 (drop 4 p)) = Returns off"
      and r: "unat off < 8 \<or> length p < unat off"
    have "parseTIFFBody p endian = Panics"
      using l v o r by (rule parseTIFFBody_preIFD_Panics)
    moreover have "parseTIFF p = parseTIFFBody p endian"
      using m l by (auto simp: parseTIFF_def slice_def)
    ultimately show "parseTIFF p = Panics" by simp
  qed
  have dir: "Uint16 endian (take 2 d) = Returns c \<and> length d < 65536
        \<and> length d < 2 + 12 * unat c + 4 \<longrightarrow> parseIFD d endian = Panics"
    using parseIFD_unfit_Panics by blast
  have val: "length slot = 12 \<and> entryFields slot endian = Returns e \<and> 4 < Length e
        \<and> Length e < 2 ^ 32 \<and> elemUint32 e endian = Returns voff
        \<and> length ifd < unat voff + nat (Length e) \<longrightarrow> parseIFDElement slot ifd endian = Panics"
    using parseIFDElement_indirect [of slot endian e voff ifd] by auto
  show ?thesis using hdr pre dir val by blast
qed

theorem bounds_enforced_by_panic_witness:
  "parseTIFF [0, 0] = Fails (ErrInvalidEndian [0, 0])
   \<and> parseTIFF [0x49, 0x49, 0x2A, 0x00, 0x04, 0, 0, 0] = Panics
   \<and> Uint16 LittleEndian (take 2 [1, 0, 0, 0, 0, 0, 0, 0]) = Returns 1
   \<and> parseIFD [1, 0, 0, 0, 0, 0, 0, 0] LittleEndian = Panics
   \<and> entryFields farSlot LittleEndian =
       Returns \<lparr>Tag = 0x010f, Type = 4, Count = 2, Value = [], rawValue = [100, 0, 0, 0]\<rparr>
   \<and> parseIFDElement farSlot [1, 2, 3] LittleEndian = Panics"
  using bounds_enforced_by_panic [where b = "[0, 0]" and err = "ErrInvalidEndian [0, 0]"
      and p = "[0x49, 0x49, 0x2A, 0x00, 0x04, 0, 0, 0]" and endian = LittleEndian
      and off = 4 and d = "[1, 0, 0, 0, 0, 0, 0, 0]" and c = 1 and slot = farSlot
      and e = "\<lparr>Tag = 0x010f, Type = 4, Count = 2, Value = [], rawValue = [100, 0, 0, 0]\<rparr>"
      and voff = 100 and ifd = "[1, 2, 3]"]
  by (simp add: decoder_defs sample_defs)

text \<open>C1 as stated fails: a header whose first-directory offset (255) lies behind the
  8-byte buffer makes \<^const>\<open>parseTIFF\<close> panic.\<close>

theorem malformed_offset_panics: "parseTIFF [0x49, 0x49, 0x2A, 0x00, 0xFF, 0, 0, 0] = Panics"
  by (simp add: decoder_defs)

text \<open>
  C2, as the code has it. For an entry whose length is above 4 and below \<open>2 ^ 32\<close>:
  when offset + length exceeds the size of the buffer, or the 32-bit sum wraps, resolving
  the value panics (no error value is returned); otherwise the value is exactly the
  \<open>length\<close> bytes of the buffer from the offset on. So a returned value is never
  shorter than the length and lies inside the buffer.
\<close>

theorem indirect_value_in_range_or_panic:
  assumes "length slot = 12" "entryFields slot endian = Returns e" "4 < Length e"
    "Length e < 2 ^ 32" "elemUint32 e endian = Returns off"
  shows "parseIFDElement slot ifd endian =
      (if unat off + nat (Length e) < 2 ^ 32 \<and> unat off + nat (Length e) \<le> length ifd
       then Returns (e\<lparr>Value := take (nat (Length e)) (drop (unat off) ifd)\<rparr>)
       else Panics)
    \<and> (\<forall>e'. parseIFDElement slot ifd endian = Returns e' \<longrightarrow>
          length (Value e') = nat (Length e) \<and> unat off + length (Value e') \<le> length ifd)"
proof -
  have eq: "parseIFDElement slot ifd endian =
      (if unat off + nat (Length e) < 2 ^ 32 \<and> unat off + nat (Length e) \<le> length ifd
       then Returns (e\<lparr>Value := take (nat (Length e)) (drop (unat off) ifd)\<rparr>)
       else Panics)"
    using assms by (rule parseIFDElement_indirect)
  then show ?thesis by (auto split: if_splits)
qed

theorem indirect_value_in_range_or_panic_witness:
  "length longSlot = 12
   \<and> entryFields longSlot LittleEndian =
       Returns \<lparr>Tag = 0x010f, Type = 4, Count = 2, Value = [], rawValue = [2, 0, 0, 0]\<rparr>
   \<and> 4 < Length \<lparr>Tag = 0x010f, Type = 4, Count = 2, Value = [], rawValue = [2, 0, 0, 0]\<rparr>
   \<and> elemUint32 \<lparr>Tag = 0x010f, Type = 4, Count = 2, Value = [], rawValue = [2, 0, 0, 0]\<rparr>
       LittleEndian = Returns 2
   \<and> parseIFDElement longSlot [0, 1, 2, 3, 4, 5, 6, 7, 8, 9] LittleEndian =
       Returns \<lparr>Tag = 0x010f, Type = 4, Count = 2, Value = [2, 3, 4, 5, 6, 7, 8, 9],
                rawValue = [2, 0, 0, 0]\<rparr>"
  using indirect_value_in_range_or_panic [where slot = longSlot and endian = LittleEndian
      and e = "\<lparr>Tag = 0x010f, Type = 4, Count = 2, Value = [], rawValue = [2, 0, 0, 0]\<rparr>"
      and off = 2 and ifd = "[0, 1, 2, 3, 4, 5, 6, 7, 8, 9]"]
  by (simp add: decoder_defs sample_defs)

text \<open>C2 as stated fails twice: a LONG pair stored at offset 100 of a 3-byte buffer
  panics rather than failing with an error, and an SRATIONAL of count \<open>2 ^ 28\<close>, whose
  length \<open>2 ^ 32\<close> is truncated to 0 by the conversion to \<^verbatim>\<open>uint32\<close>, resolves to
  an empty value.\<close>

theorem indirect_value_panics_or_truncates:
  "parseIFDElement farSlot [1, 2, 3] LittleEndian = Panics
   \<and> parseIFDElement hugeSlot [1, 2, 3] LittleEndian =
       Returns \<lparr>Tag = 0x010f, Type = 10, Count = 0x10000000, Value = [],
                rawValue = [1, 0, 0, 0]\<rparr>"
  by (simp add: decoder_defs sample_defs)

text \<open>
  C3, as the code has it. The second top-level directory is never left unset: every
  successful decode sets both \<open>IFD0\<close> and \<open>IFD1\<close>, whatever the 4-byte field behind
  the primary directory's entries holds, 0 included. That field is not followed as an
  absolute offset: it is read as the byte length of the primary directory's values
  region, the bytes that follow the field. (Where \<open>IFD1\<close> is decoded is left out.)
\<close>

theorem thumbnail_always_decoded:
  assumes "parseTIFF b = Returns doc"
  shows "\<exists>off ifd0 ifd1 c vl.
      Uint32 (Endian doc) (take 4 (drop 4 b)) = Returns off
    \<and> IFD0 doc = Some ifd0 \<and> IFD1 doc = Some ifd1
    \<and> Uint16 (Endian doc) (take 2 (drop (unat off) b)) = Returns c
    \<and> Uint32 (Endian doc) (take 4 (drop (unat off + unat (trailerPos c)) b)) = Returns vl
    \<and> rawValues ifd0 = take (unat vl) (drop (unat off + unat (valuesPos c)) b)
    \<and> length (rawValues ifd0) = unat vl"
proof -
  from assms obtain endian where body: "parseTIFFBody b endian = Returns doc"
    using parseTIFF_Returns by blast
  from parseTIFFBody_Returns [OF body] obtain off ifd0 ifd1 where
    off: "Uint32 endian (take 4 (drop 4 b)) = Returns off"
    and p0: "parseIFD (drop (unat off) b) endian = Returns ifd0"
    and doc: "Endian doc = endian" "IFD0 doc = Some ifd0" "IFD1 doc = Some ifd1"
    by blast
  from parseIFD_Returns [OF p0] obtain c vl where
    c: "Uint16 endian (take 2 (drop (unat off) b)) = Returns c"
    and vl: "Uint32 endian (take 4 (drop (unat (trailerPos c)) (drop (unat off) b))) = Returns vl"
    and raw: "rawValues ifd0 = take (unat vl) (drop (unat (valuesPos c)) (drop (unat off) b))"
    and ln: "length (rawValues ifd0) = unat vl"
    by blast
  have vl': "Uint32 endian (take 4 (drop (unat off + unat (trailerPos c)) b)) = Returns vl"
    using vl by (simp add: add.commute)
  have raw': "rawValues ifd0 = take (unat vl) (drop (unat off + unat (valuesPos c)) b)"
    using raw by (simp add: add.commute)
  show ?thesis
    using off doc c vl' raw' ln by auto
qed

theorem thumbnail_always_decoded_witness:
  "parseTIFF gapTIFF = Returns
     \<lparr>Endian = LittleEndian, rawPreIFD = [],
      IFD0 = Some \<lparr>Elements = [], rawValues = [0, 0, 0, 0, 0, 0]\<rparr>, ExifIFD = None,
      GPSIFD = None, InteroperabilityIFD = None,
      IFD1 = Some \<lparr>Elements = [], rawValues = []\<rparr>\<rparr>
   \<and> (\<exists>off ifd0 ifd1 c vl.
      Uint32 LittleEndian (take 4 (drop 4 gapTIFF)) = Returns off
    \<and> Some \<lparr>Elements = [], rawValues = [0, 0, 0, 0, 0, 0]\<rparr> = Some ifd0
    \<and> Some \<lparr>Elements = [], rawValues = []\<rparr> = Some ifd1
    \<and> Uint16 LittleEndian (take 2 (drop (unat off) gapTIFF)) = Returns c
    \<and> Uint32 LittleEndian (take 4 (drop (unat off + unat (trailerPos c)) gapTIFF)) = Returns vl
    \<and> rawValues ifd0 = take (unat vl) (drop (unat off + unat (valuesPos c)) gapTIFF)
    \<and> length (rawValues ifd0) = unat vl)"
proof -
  have run: "parseTIFF gapTIFF = Returns
     \<lparr>Endian = LittleEndian, rawPreIFD = [],
      IFD0 = Some \<lparr>Elements = [], rawValues = [0, 0, 0, 0, 0, 0]\<rparr>, ExifIFD = None,
      GPSIFD = None, InteroperabilityIFD = None,
      IFD1 = Some \<lparr>Elements = [], rawValues = []\<rparr>\<rparr>"
    by (simp add: decoder_defs sample_defs)
  show ?thesis
    using run thumbnail_always_decoded [OF run] by simp
qed

text \<open>C3 as stated fails: the primary directory of \<^const>\<open>minimalTIFF\<close> has the
  next-directory field 0, and the decoded document has its second directory set.\<close>

theorem zero_trailer_thumbnail_set:
  "Uint32 LittleEndian (take 4 (drop 10 minimalTIFF)) = Returns 0
   \<and> parseTIFF minimalTIFF = Returns
     \<lparr>Endian = LittleEndian, rawPreIFD = [],
      IFD0 = Some \<lparr>Elements = [], rawValues = []\<rparr>, ExifIFD = None,
      GPSIFD = None, InteroperabilityIFD = None,
      IFD1 = Some \<lparr>Elements = [], rawValues = []\<rparr>\<rparr>"
  by (simp add: decoder_defs sample_defs)

text \<open>
  C4, as the code has it. The length of a value is count times a size taken from a
  partial table: SHORT (3) has size 2, LONG (4) size 4, RATIONAL (5) size 8, and every
  type code other than 3, 4, 5, 9 and 10, inside the standard table or not, has size 1.
  No type code makes the resolution of a 12-byte entry fail. (The sizes the code uses
  for the codes 9 and 10 are left out.)
\<close>

theorem Length_partial_table:
  "(Type e \<notin> {9, 10} \<longrightarrow>
      Length e = int (unat (Count e)) *
        (if Type e = 3 then 2 else if Type e = 4 then 4 else if Type e = 5 then 8 else 1))
   \<and> (length slot = 12 \<longrightarrow> parseIFDElement slot ifd endian \<noteq> Fails err)"
  using parseIFDElement_not_Fails [of slot ifd endian err] by (simp add: Length_def)

theorem Length_partial_table_witness:
  "Length \<lparr>Tag = 0, Type = 3, Count = 2, Value = [], rawValue = []\<rparr> = 4
   \<and> Length \<lparr>Tag = 0, Type = 7, Count = 2, Value = [], rawValue = []\<rparr> = 2
   \<and> length unknownSlot = 12
   \<and> parseIFDElement unknownSlot [] LittleEndian \<noteq> Fails (ErrElementLength 12)"
  using Length_partial_table [where e = "\<lparr>Tag = 0, Type = 3, Count = 2, Value = [], rawValue = []\<rparr>"
      and slot = unknownSlot and ifd = "[]" and endian = LittleEndian
      and err = "ErrElementLength 12"]
    Length_partial_table [where e = "\<lparr>Tag = 0, Type = 7, Count = 2, Value = [], rawValue = []\<rparr>"
      and slot = unknownSlot and ifd = "[]" and endian = LittleEndian
      and err = "ErrElementLength 12"]
  by (simp add: sample_defs)

text \<open>C4 as stated fails: a DOUBLE (12) and an SSHORT (8) of count 1 have length 1,
  not 8 and 2, and an entry of the unknown type 13 is resolved, with size 1.\<close>

theorem Length_outside_standard_table:
  "Length \<lparr>Tag = 0, Type = 12, Count = 1, Value = [], rawValue = []\<rparr> = 1
   \<and> Length \<lparr>Tag = 0, Type = 8, Count = 1, Value = [], rawValue = []\<rparr> = 1
   \<and> parseIFDElement unknownSlot [] LittleEndian =
       Returns \<lparr>Tag = 0x010f, Type = 13, Count = 3, Value = [1, 2, 3, 4],
                rawValue = [1, 2, 3, 4]\<rparr>"
  by (simp add: decoder_defs sample_defs)

text \<open>
  C5, as the code has it. For an entry whose length is at most 4, the resolved value is
  the whole 4-byte raw field of the entry, whatever the length, and it does not depend
  on the buffer: no indirect read is made.
\<close>

theorem inline_value_whole_raw_field:
  assumes "length slot = 12" "entryFields slot endian = Returns e" "Length e \<le> 4"
  shows "parseIFDElement slot ifd endian = Returns (e\<lparr>Value := drop 8 slot\<rparr>)
     \<and> length (drop 8 slot) = 4"
  using assms parseIFDElement_inline [OF assms, of ifd] by simp

theorem inline_value_whole_raw_field_witness:
  "length byteSlot = 12
   \<and> entryFields byteSlot LittleEndian =
       Returns \<lparr>Tag = 0x010f, Type = 1, Count = 1, Value = [], rawValue = [0xAA, 0xBB, 0xCC, 0xDD]\<rparr>
   \<and> Length \<lparr>Tag = 0x010f, Type = 1, Count = 1, Value = [], rawValue = [0xAA, 0xBB, 0xCC, 0xDD]\<rparr> \<le> 4
   \<and> parseIFDElement byteSlot [9, 9, 9] LittleEndian =
       Returns \<lparr>Tag = 0x010f, Type = 1, Count = 1, Value = [0xAA, 0xBB, 0xCC, 0xDD],
                rawValue = [0xAA, 0xBB, 0xCC, 0xDD]\<rparr>"
  using inline_value_whole_raw_field [where slot = byteSlot and endian = LittleEndian
      and ifd = "[9, 9, 9]"
      and e = "\<lparr>Tag = 0x010f, Type = 1, Count = 1, Value = [], rawValue = [0xAA, 0xBB, 0xCC, 0xDD]\<rparr>"]
  by (simp add: decoder_defs sample_defs)

text \<open>C5 as stated fails: a BYTE of count 1 has length 1, and its resolved value has
  the four bytes of the raw field, not the first one only.\<close>

theorem inline_value_not_trimmed:
  "Length \<lparr>Tag = 0x010f, Type = 1, Count = 1, Value = [], rawValue = [0xAA, 0xBB, 0xCC, 0xDD]\<rparr> = 1
   \<and> parseIFDElement byteSlot [] LittleEndian =
       Returns \<lparr>Tag = 0x010f, Type = 1, Count = 1, Value = [0xAA, 0xBB, 0xCC, 0xDD],
                rawValue = [0xAA, 0xBB, 0xCC, 0xDD]\<rparr>"
  by (simp add: decoder_defs sample_defs)

text \<open>
  C6, as the code has it. Decoding a directory checks no length and never fails with an
  error. With fewer than 2 bytes at the directory's offset it panics; for buffers
  shorter than \<open>65536\<close> bytes it panics when \<open>2 + 12 \<times> entryCount + 4\<close> exceeds the
  bytes that are left, and when it returns, the entries, the trailer and the values
  region it declares fit in them.
\<close>

theorem parseIFD_unchecked_bounds:
  "parseIFD b endian \<noteq> Fails err
   \<and> (length b < 2 \<longrightarrow> parseIFD b endian = Panics)
   \<and> (Uint16 endian (take 2 b) = Returns c \<and> length b < 65536
        \<and> length b < 2 + 12 * unat c + 4 \<longrightarrow> parseIFD b endian = Panics)
   \<and> (parseIFD b endian = Returns d \<and> length b < 65536 \<longrightarrow>
        2 + 12 * length (Elements d) + 4 + length (rawValues d) \<le> length b)"
  using parseIFD_not_Fails [of b endian err] parseIFD_short_Panics [of b endian]
    parseIFD_unfit_Panics [of endian b c] parseIFD_fits [of b endian d]
  by blast

theorem parseIFD_unchecked_bounds_witness:
  "parseIFD [0] LittleEndian = Panics
   \<and> Uint16 LittleEndian (take 2 [2, 0, 0, 0, 0, 0, 0, 0, 0, 0]) = Returns 2
   \<and> parseIFD [2, 0, 0, 0, 0, 0, 0, 0, 0, 0] LittleEndian = Panics
   \<and> parseIFD (drop 8 oneEntryTIFF) LittleEndian =
       Returns \<lparr>Elements = [\<lparr>Tag = 0x010f, Type = 1, Count = 1, Value = [0xAA, 0xBB, 0xCC, 0xDD],
                 rawValue = [0xAA, 0xBB, 0xCC, 0xDD]\<rparr>], rawValues = []\<rparr>
   \<and> 2 + 12 * 1 + 4 + 0 \<le> length (drop 8 oneEntryTIFF)"
  using parseIFD_unchecked_bounds [where b = "[0]" and endian = LittleEndian and c = 0
      and d = "\<lparr>Elements = [], rawValues = []\<rparr>" and err = "ErrElementLength 0"]
    parseIFD_unchecked_bounds [where b = "[2, 0, 0, 0, 0, 0, 0, 0, 0, 0]"
      and endian = LittleEndian and c = 2
      and d = "\<lparr>Elements = [], rawValues = []\<rparr>" and err = "ErrElementLength 0"]
    parseIFD_unchecked_bounds [where b = "drop 8 oneEntryTIFF" and endian = LittleEndian
      and c = 1
      and d = "\<lparr>Elements = [\<lparr>Tag = 0x010f, Type = 1, Count = 1, Value = [0xAA, 0xBB, 0xCC, 0xDD],
                 rawValue = [0xAA, 0xBB, 0xCC, 0xDD]\<rparr>], rawValues = []\<rparr>"
      and err = "ErrElementLength 0"]
  by (simp add: decoder_defs sample_defs)

text \<open>C6 as stated fails: six bytes that declare one entry (which needs 18) make
  \<^const>\<open>parseIFD\<close> panic; no error is returned.\<close>

theorem truncated_directory_panics: "parseIFD [1, 0, 0, 0, 0, 0] LittleEndian = Panics"
  by (simp add: decoder_defs)

text \<open>
  C7 on the code. The APP1 segment of \<^const>\<open>minimalJPEG\<close> declares the length
  \<open>0x16 = 22\<close>, so its TIFF payload has \<open>22 - 2 - 6 = 14\<close> bytes, which decode to an
  empty document. \<^const>\<open>readTIFFPayload\<close> reads \<open>22 - 10 = 12\<close> bytes only, and the
  decoder panics on the shortened payload.
\<close>

theorem payload_two_bytes_short:
  "length minimalTIFF = 14
   \<and> readTIFFPayload (drop 2 minimalJPEG) = Returns (take 12 minimalTIFF)
   \<and> parseJPEGHeader minimalJPEG = Panics
   \<and> parseTIFF minimalTIFF = Returns
     \<lparr>Endian = LittleEndian, rawPreIFD = [],
      IFD0 = Some \<lparr>Elements = [], rawValues = []\<rparr>, ExifIFD = None,
      GPSIFD = None, InteroperabilityIFD = None,
      IFD1 = Some \<lparr>Elements = [], rawValues = []\<rparr>\<rparr>"
  by (simp add: decoder_defs sample_defs)

text \<open>
  C8, as the code has it. Looking up a tag that no entry of a directory carries returns
  the nil directory, with no error and no panic, and in every decoded document whose
  primary directory has no entry with tag \<open>0x8769\<close> (\<open>0x8825\<close>, \<open>0xA005\<close>) the
  Exif (GPS, Interoperability) directory is unset. Decoding as a whole need not succeed:
  with a valid header and a decoded primary directory that has none of the three tags,
  it ends as the decoding of the second top-level directory ends, and when that returns,
  it returns a document with the three fields unset.
\<close>

theorem missing_pointer_tags_unset:
  "((\<forall>x\<in>set (Elements d). Tag x \<noteq> tag) \<longrightarrow> FindLinkedIFD d tag b endian = Returns None)
   \<and> ((take 2 p = [0x4d, 0x4d] \<and> en = BigEndian \<or> take 2 p = [0x49, 0x49] \<and> en = LittleEndian)
        \<and> Uint16 en (take 2 (drop 2 p)) = Returns 0x2a
        \<and> Uint32 en (take 4 (drop 4 p)) = Returns off
        \<and> 8 \<le> unat off \<and> unat off \<le> length p
        \<and> parseIFD (drop (unat off) p) en = Returns prim
        \<and> (\<forall>x\<in>set (Elements prim). Tag x \<notin> {0x8769, 0x8825, 0xA005}) \<longrightarrow>
        parseTIFF p =
          andThen (sliceFrom p (unat off + length (rawValues prim))) (\<lambda>s1.
          andThen (wrapErr ErrParse1stIFD (parseIFD s1 en)) (\<lambda>ifd1.
            Returns \<lparr>Endian = en, rawPreIFD = take (unat off - 8) (drop 8 p),
                     IFD0 = Some prim, ExifIFD = None, GPSIFD = None,
                     InteroperabilityIFD = None, IFD1 = Some ifd1\<rparr>)))
   \<and> (parseTIFF q = Returns doc \<and> IFD0 doc = Some first \<longrightarrow>
        ((\<forall>x\<in>set (Elements first). Tag x \<noteq> 0x8769) \<longrightarrow> ExifIFD doc = None)
      \<and> ((\<forall>x\<in>set (Elements first). Tag x \<noteq> 0x8825) \<longrightarrow> GPSIFD doc = None)
      \<and> ((\<forall>x\<in>set (Elements first). Tag x \<noteq> 0xA005) \<longrightarrow> InteroperabilityIFD doc = None))"
proof -
  have absent: "(\<forall>x\<in>set (Elements d). Tag x \<noteq> tag) \<longrightarrow> FindLinkedIFD d tag b endian = Returns None"
    for d tag b endian
    by (simp add: FindLinkedIFD_def findLinked_absent)
  have total: "parseTIFF p =
          andThen (sliceFrom p (unat off + length (rawValues prim))) (\<lambda>s1.
          andThen (wrapErr ErrParse1stIFD (parseIFD s1 en)) (\<lambda>ifd1.
            Returns \<lparr>Endian = en, rawPreIFD = take (unat off - 8) (drop 8 p),
                     IFD0 = Some prim, ExifIFD = None, GPSIFD = None,
                     InteroperabilityIFD = None, IFD1 = Some ifd1\<rparr>))"
    if m: "take 2 p = [0x4d, 0x4d] \<and> en = BigEndian \<or> take 2 p = [0x49, 0x49] \<and> en = LittleEndian"
      and v: "Uint16 en (take 2 (drop 2 p)) = Returns 0x2a"
      and o: "Uint32 en (take 4 (drop 4 p)) = Returns off"
      and r: "8 \<le> unat off" "unat off \<le> length p"
      and p0: "parseIFD (drop (unat off) p) en = Returns prim"
      and nt: "\<forall>x\<in>set (Elements prim). Tag x \<notin> {0x8769, 0x8825, 0xA005}"
  proof -
    have l: "8 \<le> length p" using r by simp
    have top: "parseTIFF p = parseTIFFBody p en"
      using m l by (auto simp: parseTIFF_def slice_def)
    have f1: "FindLinkedIFD prim 0x8769 p en = Returns None"
      using nt absent [of prim "0x8769" p en] by simp
    have f2: "FindLinkedIFD prim 0x8825 p en = Returns None"
      using nt absent [of prim "0x8825" p en] by simp
    have f3: "FindLinkedIFD prim 0xA005 p en = Returns None"
      using nt absent [of prim "0xA005" p en] by simp
    show ?thesis
      unfolding top using l v o r p0 f1 f2 f3
      by (simp add: parseTIFFBody_def slice_def sliceFrom_def)
  qed
  have fields: "((\<forall>x\<in>set (Elements first). Tag x \<noteq> 0x8769) \<longrightarrow> ExifIFD doc = None)
      \<and> ((\<forall>x\<in>set (Elements first). Tag x \<noteq> 0x8825) \<longrightarrow> GPSIFD doc = None)
      \<and> ((\<forall>x\<in>set (Elements first). Tag x \<noteq> 0xA005) \<longrightarrow> InteroperabilityIFD doc = None)"
    if run: "parseTIFF q = Returns doc" and d0: "IFD0 doc = Some first"
  proof -
    from run obtain e where body: "parseTIFFBody q e = Returns doc"
      using parseTIFF_Returns by blast
    from parseTIFFBody_Returns [OF body] d0 have
      "FindLinkedIFD first 0x8769 q e = Returns (ExifIFD doc)"
      "FindLinkedIFD first 0x8825 q e = Returns (GPSIFD doc)"
      "FindLinkedIFD first 0xA005 q e = Returns (InteroperabilityIFD doc)"
      by auto
    then show ?thesis
      using absent [of first "0x8769" q e] absent [of first "0x8825" q e]
        absent [of first "0xA005" q e]
      by auto
  qed
  show ?thesis using absent [of d tag b endian] total fields by blast
qed

theorem missing_pointer_tags_unset_witness:
  "parseIFD (drop 8 oneEntryTIFF) LittleEndian = Returns
      \<lparr>Elements = [\<lparr>Tag = 0x010f, Type = 1, Count = 1,
                 Value = [0xAA, 0xBB, 0xCC, 0xDD], rawValue = [0xAA, 0xBB, 0xCC, 0xDD]\<rparr>],
               rawValues = []\<rparr>
   \<and> FindLinkedIFD \<lparr>Elements = [\<lparr>Tag = 0x010f, Type = 1, Count = 1,
                 Value = [0xAA, 0xBB, 0xCC, 0xDD], rawValue = [0xAA, 0xBB, 0xCC, 0xDD]\<rparr>],
               rawValues = []\<rparr> 0x8825 oneEntryTIFF LittleEndian = Returns None
   \<and> parseTIFF oneEntryTIFF = Returns
     \<lparr>Endian = LittleEndian, rawPreIFD = [],
      IFD0 = Some \<lparr>Elements = [\<lparr>Tag = 0x010f, Type = 1, Count = 1,
                 Value = [0xAA, 0xBB, 0xCC, 0xDD], rawValue = [0xAA, 0xBB, 0xCC, 0xDD]\<rparr>],
               rawValues = []\<rparr>,
      ExifIFD = None, GPSIFD = None, InteroperabilityIFD = None,
      IFD1 = Some \<lparr>Elements = [\<lparr>Tag = 0x010f, Type = 1, Count = 1,
                 Value = [0xAA, 0xBB, 0xCC, 0xDD], rawValue = [0xAA, 0xBB, 0xCC, 0xDD]\<rparr>],
               rawValues = []\<rparr>\<rparr>"
  using missing_pointer_tags_unset [where b = oneEntryTIFF and endian = LittleEndian
      and tag = "0x8825" and p = oneEntryTIFF and en = LittleEndian and off = 8
      and q = oneEntryTIFF
      and d = "\<lparr>Elements = [\<lparr>Tag = 0x010f, Type = 1, Count = 1,
                 Value = [0xAA, 0xBB, 0xCC, 0xDD], rawValue = [0xAA, 0xBB, 0xCC, 0xDD]\<rparr>],
               rawValues = []\<rparr>"
      and prim = "\<lparr>Elements = [\<lparr>Tag = 0x010f, Type = 1, Count = 1,
                 Value = [0xAA, 0xBB, 0xCC, 0xDD], rawValue = [0xAA, 0xBB, 0xCC, 0xDD]\<rparr>],
               rawValues = []\<rparr>"
      and first = "\<lparr>Elements = [\<lparr>Tag = 0x010f, Type = 1, Count = 1,
                 Value = [0xAA, 0xBB, 0xCC, 0xDD], rawValue = [0xAA, 0xBB, 0xCC, 0xDD]\<rparr>],
               rawValues = []\<rparr>"
      and doc = "\<lparr>Endian = LittleEndian, rawPreIFD = [],
      IFD0 = Some \<lparr>Elements = [\<lparr>Tag = 0x010f, Type = 1, Count = 1,
                 Value = [0xAA, 0xBB, 0xCC, 0xDD], rawValue = [0xAA, 0xBB, 0xCC, 0xDD]\<rparr>],
               rawValues = []\<rparr>,
      ExifIFD = None, GPSIFD = None, InteroperabilityIFD = None,
      IFD1 = Some \<lparr>Elements = [\<lparr>Tag = 0x010f, Type = 1, Count = 1,
                 Value = [0xAA, 0xBB, 0xCC, 0xDD], rawValue = [0xAA, 0xBB, 0xCC, 0xDD]\<rparr>],
               rawValues = []\<rparr>\<rparr>"]
  by (simp add: decoder_defs sample_defs)

text \<open>C8 as stated fails: the primary directory of \<^const>\<open>twoDirTIFF\<close> has one entry,
  with tag \<open>0x010F\<close>, and none of the three pointer tags, and decoding does not
  succeed: it panics.\<close>

theorem missing_pointer_tags_decode_panics:
  "Uint16 LittleEndian (take 2 (drop 8 twoDirTIFF)) = Returns 1
   \<and> entryFields (take 12 (drop 10 twoDirTIFF)) LittleEndian =
     Returns \<lparr>Tag = 0x010f, Type = 1, Count = 1, Value = [], rawValue = [0xAA, 0xBB, 0xCC, 0xDD]\<rparr>
   \<and> parseTIFF twoDirTIFF = Panics"
  by (simp add: decoder_defs sample_defs)

text \<open>
  C9, as the code has it. Both positions are computed modulo \<open>65536\<close>. The position
  of the values region, \<open>2 + 12 \<times> entryCount + 4\<close>, wraps for every entry count of 5461
  or more; the position of the trailer, \<open>2 + 12 \<times> entryCount\<close>, wraps for every entry
  count of 5462 or more; up to 5460 entries both are the mathematical offsets.
\<close>

theorem position_wraparound:
  "(5461 \<le> unat c \<longrightarrow> unat (valuesPos c) \<noteq> 2 + 12 * unat c + 4)
   \<and> (5462 \<le> unat c \<longrightarrow> unat (trailerPos c) \<noteq> 2 + 12 * unat c)
   \<and> (unat c \<le> 5460 \<longrightarrow>
        unat (trailerPos c) = 2 + 12 * unat c \<and> unat (valuesPos c) = 2 + 12 * unat c + 4)
   \<and> unat (trailerPos c) = (2 + 12 * unat c) mod 65536
   \<and> unat (valuesPos c) = (2 + 12 * unat c + 4) mod 65536"
proof -
  have lt: "(x::nat) mod 65536 < 65536" for x by simp
  have a: "5461 \<le> unat c \<Longrightarrow> (2 + 12 * unat c + 4) mod 65536 \<noteq> 2 + 12 * unat c + 4"
    using lt [of "2 + 12 * unat c + 4"] by linarith
  have b: "5462 \<le> unat c \<Longrightarrow> (2 + 12 * unat c) mod 65536 \<noteq> 2 + 12 * unat c"
    using lt [of "2 + 12 * unat c"] by linarith
  show ?thesis using a b by (simp add: trailerPos_unat valuesPos_unat)
qed

theorem position_wraparound_witness:
  "unat (valuesPos 5461) = 2 \<and> unat (trailerPos 5462) = 10
   \<and> unat (trailerPos 5460) = 65522 \<and> unat (valuesPos 5460) = 65526"
  using position_wraparound [of 5461] position_wraparound [of 5462] position_wraparound [of 5460]
  by (simp add: decoder_defs)

text \<open>C9 as stated fails at the entry count 5461: the trailer position is 65534, the
  mathematical offset \<open>2 + 12 \<times> 5461\<close>.\<close>

theorem trailer_position_5461_exact:
  "unat (trailerPos 5461) = 2 + 12 * unat (5461 :: 16 word)"
  by (simp add: decoder_defs)

text \<open>
  C10. When a directory has an entry with the tag looked up, \<^const>\<open>FindLinkedIFD\<close>
  decodes the directory at the offset held by the first such entry in the order of the
  entries; the entries after it have no influence on the result.
\<close>

theorem FindLinkedIFD_first_match:
  assumes "Elements d = pre @ e # post" "\<forall>x\<in>set pre. Tag x \<noteq> tag" "Tag e = tag"
  shows "FindLinkedIFD d tag b endian =
     andThen (elemUint32 e endian) (\<lambda>offset.
     andThen (sliceFrom b (unat offset)) (\<lambda>s.
     andThen (parseIFD s endian) (\<lambda>d'. Returns (Some d'))))"
  using assms findLinked_first [of pre tag e post b endian] by (simp add: FindLinkedIFD_def)

theorem FindLinkedIFD_first_match_witness:
  "FindLinkedIFD
     \<lparr>Elements = [\<lparr>Tag = 0x010f, Type = 1, Count = 1, Value = [1, 2, 3, 4], rawValue = [1, 2, 3, 4]\<rparr>,
                  \<lparr>Tag = 0x8769, Type = 4, Count = 1, Value = [8, 0, 0, 0], rawValue = [8, 0, 0, 0]\<rparr>,
                  \<lparr>Tag = 0x8769, Type = 4, Count = 1, Value = [255, 0, 0, 0], rawValue = [255, 0, 0, 0]\<rparr>],
      rawValues = []\<rparr> 0x8769 minimalTIFF LittleEndian
     = Returns (Some \<lparr>Elements = [], rawValues = []\<rparr>)
   \<and> FindLinkedIFD
     \<lparr>Elements = [\<lparr>Tag = 0x8769, Type = 4, Count = 1, Value = [255, 0, 0, 0], rawValue = [255, 0, 0, 0]\<rparr>],
      rawValues = []\<rparr> 0x8769 minimalTIFF LittleEndian = Panics"
  using FindLinkedIFD_first_match [where
      d = "\<lparr>Elements = [\<lparr>Tag = 0x010f, Type = 1, Count = 1, Value = [1, 2, 3, 4], rawValue = [1, 2, 3, 4]\<rparr>,
                  \<lparr>Tag = 0x8769, Type = 4, Count = 1, Value = [8, 0, 0, 0], rawValue = [8, 0, 0, 0]\<rparr>,
                  \<lparr>Tag = 0x8769, Type = 4, Count = 1, Value = [255, 0, 0, 0], rawValue = [255, 0, 0, 0]\<rparr>],
      rawValues = []\<rparr>"
      and pre = "[\<lparr>Tag = 0x010f, Type = 1, Count = 1, Value = [1, 2, 3, 4], rawValue = [1, 2, 3, 4]\<rparr>]"
      and e = "\<lparr>Tag = 0x8769, Type = 4, Count = 1, Value = [8, 0, 0, 0], rawValue = [8, 0, 0, 0]\<rparr>"
      and post = "[\<lparr>Tag = 0x8769, Type = 4, Count = 1, Value = [255, 0, 0, 0], rawValue = [255, 0, 0, 0]\<rparr>]"
      and tag = "0x8769" and b = minimalTIFF and endian = LittleEndian]
  by (simp add: decoder_defs sample_defs)

end
